theory Spec2Isabelle
  imports Complex_Main "HOL-Library.Product_Lexorder"
begin

section \<open>Python strings and the runtime tables the source relies on\<close>

text \<open>
  A Python \<open>str\<close> is a sequence of Unicode code points, so a string is a list of
  natural numbers; \<open>ascii\<close> embeds an ASCII literal. What \<open>str.lower\<close>,
  \<open>str.isalnum\<close>, \<open>str.isspace\<close> and \<open>int\<close> do on ASCII text is written out below.
  What they do beyond ASCII is decided by the Unicode character database of the
  interpreter, which is not part of the repository: it is a parameter of the model, the
  record \<open>runtime\<close>, together with the interpreter's limit on the digits of an integer
  literal (\<open>sys.get_int_max_str_digits()\<close>, 0 meaning no limit). \<open>uni_lower\<close> is the
  lowering of a whole string, because \<open>str.lower\<close> is context sensitive outside ASCII.
\<close>

type_synonym pystr = "nat list"

definition ascii :: "string \<Rightarrow> pystr" where
  "ascii s = map of_char s"

record runtime =
  uni_isalnum :: "nat \<Rightarrow> bool"
  uni_isspace :: "nat \<Rightarrow> bool"
  uni_decimal :: "nat \<Rightarrow> nat option"
  uni_lower :: "pystr \<Rightarrow> pystr"
  int_max_str_digits :: nat

definition is_ascii :: "pystr \<Rightarrow> bool" where
  "is_ascii s = list_all (\<lambda>c. c < 128) s"

definition ascii_isspace :: "nat \<Rightarrow> bool" where
  "ascii_isspace c = ((9 \<le> c \<and> c \<le> 13) \<or> (28 \<le> c \<and> c \<le> 32))"

definition ascii_isalnum :: "nat \<Rightarrow> bool" where
  "ascii_isalnum c = ((48 \<le> c \<and> c \<le> 57) \<or> (65 \<le> c \<and> c \<le> 90) \<or> (97 \<le> c \<and> c \<le> 122))"

definition ascii_lower :: "nat \<Rightarrow> nat" where
  "ascii_lower c = (if 65 \<le> c \<and> c \<le> 90 then c + 32 else c)"

definition py_isspace :: "runtime \<Rightarrow> nat \<Rightarrow> bool" where
  "py_isspace R c = (if c < 128 then ascii_isspace c else uni_isspace R c)"

definition py_isalnum :: "runtime \<Rightarrow> nat \<Rightarrow> bool" where
  "py_isalnum R c = (if c < 128 then ascii_isalnum c else uni_isalnum R c)"

definition py_lower :: "runtime \<Rightarrow> pystr \<Rightarrow> pystr" where
  "py_lower R s = (if is_ascii s then map ascii_lower s else uni_lower R s)"

text \<open>\<open>str.strip()\<close>: drop the leading and the trailing whitespace.\<close>

definition py_strip :: "runtime \<Rightarrow> pystr \<Rightarrow> pystr" where
  "py_strip R s = rev (dropWhile (py_isspace R) (rev (dropWhile (py_isspace R) s)))"

section \<open>\<open>difflib.SequenceMatcher(None, a, b).ratio()\<close>\<close>

text \<open>
  \<open>Song.__eq__\<close> calls the standard library's \<open>SequenceMatcher\<close> with no junk
  predicate and the default \<open>autojunk=True\<close>. The model follows \<open>difflib.py\<close> method by
  method, with Python's integers as \<open>int\<close>.

  \<open>__chain_b\<close> builds \<open>b2j\<close>, the dictionary from an element of \<open>b\<close> to the ascending
  list of its positions, and then deletes the popular elements: when \<open>b\<close> has 200 elements
  or more, those occurring more than \<open>len(b) // 100 + 1\<close> times. The dictionary is only
  read through \<open>b2j.get(x, [])\<close>, which is what \<open>b2j_get\<close> computes.
\<close>

fun positions :: "nat \<Rightarrow> int \<Rightarrow> pystr \<Rightarrow> int list" where
  "positions x i [] = []"
| "positions x i (elt # b) = (if elt = x then i # positions x (i + 1) b else positions x (i + 1) b)"

definition b2j_get :: "pystr \<Rightarrow> nat \<Rightarrow> int list" where
  "b2j_get b x =
     (let idxs = positions x 0 b; n = length b
      in if n \<ge> 200 \<and> length idxs > n div 100 + 1 then [] else idxs)"

type_synonym match = "int \<times> int \<times> int"

text \<open>
  \<open>find_longest_match\<close>, the inner loop \<open>for j in b2j.get(a[i], nothing)\<close>: \<open>continue\<close>
  below \<open>blo\<close>, \<open>break\<close> at \<open>bhi\<close>, otherwise
  \<open>k = newj2len[j] = j2lenget(j-1, 0) + 1\<close> and the best match is replaced when \<open>k\<close> is
  strictly larger.
\<close>

fun scan_row :: "int \<Rightarrow> int \<Rightarrow> int \<Rightarrow> (int \<rightharpoonup> int) \<Rightarrow> int list \<Rightarrow>
    (int \<rightharpoonup> int) \<times> match \<Rightarrow> (int \<rightharpoonup> int) \<times> match" where
  "scan_row i blo bhi j2len [] st = st"
| "scan_row i blo bhi j2len (j # js) (newj2len, (besti, bestj, bestsize)) =
     (if j < blo then scan_row i blo bhi j2len js (newj2len, (besti, bestj, bestsize))
      else if j \<ge> bhi then (newj2len, (besti, bestj, bestsize))
      else
        (let k = (case j2len (j - 1) of None \<Rightarrow> 0 | Some v \<Rightarrow> v) + 1
         in scan_row i blo bhi j2len js
              (newj2len(j \<mapsto> k),
               if k > bestsize then (i - k + 1, j - k + 1, k) else (besti, bestj, bestsize))))"

text \<open>The outer loop \<open>for i in range(alo, ahi)\<close>; each row ends with \<open>j2len = newj2len\<close>.\<close>

fun scan_rows :: "pystr \<Rightarrow> pystr \<Rightarrow> int \<Rightarrow> int \<Rightarrow> int list \<Rightarrow>
    (int \<rightharpoonup> int) \<times> match \<Rightarrow> (int \<rightharpoonup> int) \<times> match" where
  "scan_rows a b blo bhi [] st = st"
| "scan_rows a b blo bhi (i # is) (j2len, best) =
     scan_rows a b blo bhi is
       (scan_row i blo bhi j2len (b2j_get b (a ! nat i)) (Map.empty, best))"

text \<open>
  The two loops that extend the best match by equal elements on each end. The set
  \<open>bjunk\<close> is empty (there is no junk predicate), so \<open>not isbjunk(...)\<close> is true and the
  two later loops, guarded by \<open>isbjunk(...)\<close>, never run.
\<close>

function extend_left :: "pystr \<Rightarrow> pystr \<Rightarrow> int \<Rightarrow> int \<Rightarrow> match \<Rightarrow> match" where
  "extend_left a b alo blo (besti, bestj, bestsize) =
     (if besti > alo \<and> bestj > blo \<and> a ! nat (besti - 1) = b ! nat (bestj - 1)
      then extend_left a b alo blo (besti - 1, bestj - 1, bestsize + 1)
      else (besti, bestj, bestsize))"
  by pat_completeness auto
termination
  by (relation "measure (\<lambda>(a, b, alo, blo, besti, bestj, bestsize). nat (besti - alo))") auto

function extend_right :: "pystr \<Rightarrow> pystr \<Rightarrow> int \<Rightarrow> int \<Rightarrow> match \<Rightarrow> match" where
  "extend_right a b ahi bhi (besti, bestj, bestsize) =
     (if besti + bestsize < ahi \<and> bestj + bestsize < bhi
         \<and> a ! nat (besti + bestsize) = b ! nat (bestj + bestsize)
      then extend_right a b ahi bhi (besti, bestj, bestsize + 1)
      else (besti, bestj, bestsize))"
  by pat_completeness auto
termination
  by (relation "measure (\<lambda>(a, b, ahi, bhi, besti, bestj, bestsize). nat (ahi - besti - bestsize))") auto

definition find_longest_match :: "pystr \<Rightarrow> pystr \<Rightarrow> int \<Rightarrow> int \<Rightarrow> int \<Rightarrow> int \<Rightarrow> match" where
  "find_longest_match a b alo ahi blo bhi =
     extend_right a b ahi bhi
       (extend_left a b alo blo
          (snd (scan_rows a b blo bhi [alo..ahi - 1] (Map.empty, (alo, blo, 0)))))"

text \<open>
  The block that \<open>find_longest_match\<close> returns lies inside the rows it was asked to
  search. This is what makes the loop of \<open>get_matching_blocks\<close> terminate.
\<close>

definition good_best :: "int \<Rightarrow> int \<Rightarrow> match \<Rightarrow> bool" where
  "good_best alo ahi m = (case m of (bi, bj, bs) \<Rightarrow>
      0 \<le> bs \<and> alo \<le> bi \<and> ((bs = 0 \<and> bi = alo) \<or> bi + bs \<le> ahi))"

definition row_bound :: "int \<Rightarrow> (int \<rightharpoonup> int) \<Rightarrow> bool" where
  "row_bound n m = (\<forall>j v. m j = Some v \<longrightarrow> 1 \<le> v \<and> v \<le> n)"

lemma scan_row_inv:
  "row_bound (i - alo) j2len \<Longrightarrow> alo \<le> i \<Longrightarrow> i < ahi \<Longrightarrow>
   row_bound (i - alo + 1) new \<Longrightarrow> good_best alo ahi best \<Longrightarrow>
   row_bound (i - alo + 1) (fst (scan_row i blo bhi j2len js (new, best)))
   \<and> good_best alo ahi (snd (scan_row i blo bhi j2len js (new, best)))"
proof (induction js arbitrary: new best)
  case Nil
  then show ?case by simp
next
  case (Cons j js)
  obtain bi bj bs where best: "best = (bi, bj, bs)" by (cases best)
  define k where "k = (case j2len (j - 1) of None \<Rightarrow> 0 | Some v \<Rightarrow> v) + 1"
  have k: "1 \<le> k \<and> k \<le> i - alo + 1"
  proof (cases "j2len (j - 1)")
    case None
    then show ?thesis using Cons.prems(2) by (simp add: k_def)
  next
    case (Some v)
    then have "1 \<le> v \<and> v \<le> i - alo" using Cons.prems(1) by (simp add: row_bound_def)
    then show ?thesis using Some by (simp add: k_def)
  qed
  have new': "row_bound (i - alo + 1) (new(j \<mapsto> k))"
    using Cons.prems(4) k by (auto simp: row_bound_def)
  have best': "good_best alo ahi (if k > bs then (i - k + 1, j - k + 1, k) else (bi, bj, bs))"
    using Cons.prems(3,5) k best by (auto simp: good_best_def)
  have step: "scan_row i blo bhi j2len (j # js) (new, best) =
      (if j < blo then scan_row i blo bhi j2len js (new, best)
       else if j \<ge> bhi then (new, best)
       else scan_row i blo bhi j2len js
              (new(j \<mapsto> k), if k > bs then (i - k + 1, j - k + 1, k) else (bi, bj, bs)))"
    by (simp add: best k_def Let_def)
  consider (skip) "j < blo" | (stop) "\<not> j < blo" "j \<ge> bhi" | (go) "\<not> j < blo" "\<not> j \<ge> bhi"
    by blast
  then show ?case
  proof cases
    case skip
    then show ?thesis unfolding step using Cons.IH[OF Cons.prems(1,2,3,4,5)] by presburger
  next
    case stop
    then show ?thesis unfolding step using Cons.prems(4,5) by (simp del: scan_row.simps)
  next
    case go
    then show ?thesis unfolding step using Cons.IH[OF Cons.prems(1,2,3) new' best'] by presburger
  qed
qed

lemma scan_rows_inv:
  "sorted_wrt (<) is \<Longrightarrow> \<forall>i\<in>set is. alo \<le> i \<and> i < ahi \<and> row_bound (i - alo) j2len \<Longrightarrow>
   good_best alo ahi best \<Longrightarrow>
   good_best alo ahi (snd (scan_rows a b blo bhi is (j2len, best)))"
proof (induction "is" arbitrary: j2len best)
  case Nil
  then show ?case by simp
next
  case (Cons i "is")
  let ?st = "scan_row i blo bhi j2len (b2j_get b (a ! nat i)) (Map.empty, best)"
  have i: "alo \<le> i" "i < ahi" "row_bound (i - alo) j2len" using Cons.prems(2) by auto
  have e: "row_bound (i - alo + 1) Map.empty" by (simp add: row_bound_def)
  from scan_row_inv[OF i(3) i(1) i(2) e Cons.prems(3)]
  have r: "row_bound (i - alo + 1) (fst ?st)" and g: "good_best alo ahi (snd ?st)" by auto
  have "\<forall>i'\<in>set is. alo \<le> i' \<and> i' < ahi \<and> row_bound (i' - alo) (fst ?st)"
  proof
    fix i' assume m: "i' \<in> set is"
    then have "i < i'" using Cons.prems(1) by auto
    then have "row_bound (i' - alo) (fst ?st)" using r by (fastforce simp: row_bound_def)
    then show "alo \<le> i' \<and> i' < ahi \<and> row_bound (i' - alo) (fst ?st)" using Cons.prems(2) m by auto
  qed
  moreover have "sorted_wrt (<) is" using Cons.prems(1) by simp
  ultimately have "good_best alo ahi (snd (scan_rows a b blo bhi is (fst ?st, snd ?st)))"
    using Cons.IH g by blast
  then show ?case by simp
qed

lemma extend_left_inv:
  "good_best alo ahi m \<Longrightarrow> good_best alo ahi (extend_left a b alo blo m)"
proof (induction a b alo blo m rule: extend_left.induct)
  case (1 a b alo blo besti bestj bestsize)
  show ?case
  proof (cases "besti > alo \<and> bestj > blo \<and> a ! nat (besti - 1) = b ! nat (bestj - 1)")
    case True
    have "good_best alo ahi (besti - 1, bestj - 1, bestsize + 1)"
      using True "1.prems" by (auto simp: good_best_def)
    from "1.IH"[OF True this] True show ?thesis by simp
  next
    case False
    then show ?thesis using "1.prems" by auto
  qed
qed

lemma extend_right_inv:
  "good_best alo ahi m \<Longrightarrow> good_best alo ahi (extend_right a b ahi bhi m)"
proof (induction a b ahi bhi m rule: extend_right.induct)
  case (1 a b ahi bhi besti bestj bestsize)
  show ?case
  proof (cases "besti + bestsize < ahi \<and> bestj + bestsize < bhi
         \<and> a ! nat (besti + bestsize) = b ! nat (bestj + bestsize)")
    case True
    have "good_best alo ahi (besti, bestj, bestsize + 1)"
      using True "1.prems" by (auto simp: good_best_def)
    from "1.IH"[OF True this] True show ?thesis by simp
  next
    case False
    then show ?thesis using "1.prems" by auto
  qed
qed

lemma find_longest_match_bounds:
  "good_best alo ahi (find_longest_match a b alo ahi blo bhi)"
proof -
  have s: "sorted_wrt (<) [alo..ahi - 1]"
    by (simp add: strict_sorted_iff)
  have "good_best alo ahi (alo, blo, 0)" by (simp add: good_best_def)
  moreover have "\<forall>i\<in>set [alo..ahi - 1]. alo \<le> i \<and> i < ahi \<and> row_bound (i - alo) Map.empty"
    by (auto simp: row_bound_def)
  ultimately have "good_best alo ahi (snd (scan_rows a b blo bhi [alo..ahi - 1] (Map.empty, (alo, blo, 0))))"
    using scan_rows_inv[OF s] by blast
  then show ?thesis
    unfolding find_longest_match_def by (intro extend_right_inv extend_left_inv)
qed

text \<open>
  \<open>get_matching_blocks\<close>: the work list \<open>queue\<close> is a stack (\<open>pop()\<close> takes the element
  appended last), here a list whose head is the top.
\<close>

function matching_loop :: "pystr \<Rightarrow> pystr \<Rightarrow> (int \<times> int \<times> int \<times> int) list \<Rightarrow> match list \<Rightarrow> match list" where
  "matching_loop a b [] matching_blocks = matching_blocks"
| "matching_loop a b ((alo, ahi, blo, bhi) # queue) matching_blocks =
     (case find_longest_match a b alo ahi blo bhi of (i, j, k) \<Rightarrow>
        if k \<noteq> 0 then
          matching_loop a b
            ((if i + k < ahi \<and> j + k < bhi then [(i + k, ahi, j + k, bhi)] else [])
             @ (if alo < i \<and> blo < j then [(alo, i, blo, j)] else [])
             @ queue)
            (matching_blocks @ [(i, j, k)])
        else matching_loop a b queue matching_blocks)"
  by pat_completeness auto
termination
proof (relation "measure (\<lambda>(a, b, queue, blocks).
          sum_list (map (\<lambda>(alo, ahi, blo, bhi). 2 * nat (ahi - alo) + 1) queue))", goal_cases)
  case 1
  then show ?case by simp
next
  case (2 a b alo ahi blo bhi queue matching_blocks x1 x2 x1a x2a)
  have "good_best alo ahi (find_longest_match a b alo ahi blo bhi)"
    by (rule find_longest_match_bounds)
  with 2 show ?case by (auto simp: good_best_def)
next
  case (3 a b alo ahi blo bhi queue matching_blocks x1 x2 x1a x2a)
  then show ?case by simp
qed

text \<open>The loop that merges adjacent blocks, after \<open>matching_blocks.sort()\<close>.\<close>

fun collapse :: "match list \<Rightarrow> match \<times> match list \<Rightarrow> match \<times> match list" where
  "collapse [] st = st"
| "collapse ((i2, j2, k2) # rest) ((i1, j1, k1), non_adjacent) =
     (if i1 + k1 = i2 \<and> j1 + k1 = j2
      then collapse rest ((i1, j1, k1 + k2), non_adjacent)
      else collapse rest
             ((i2, j2, k2), if k1 \<noteq> 0 then non_adjacent @ [(i1, j1, k1)] else non_adjacent))"

definition get_matching_blocks :: "pystr \<Rightarrow> pystr \<Rightarrow> match list" where
  "get_matching_blocks a b =
     (let la = int (length a); lb = int (length b);
          matching_blocks = sort (matching_loop a b [(0, la, 0, lb)] [])
      in case collapse matching_blocks ((0, 0, 0), []) of
           ((i1, j1, k1), non_adjacent) \<Rightarrow>
             (if k1 \<noteq> 0 then non_adjacent @ [(i1, j1, k1)] else non_adjacent) @ [(la, lb, 0)])"

text \<open>
  \<open>ratio()\<close> is \<open>_calculate_ratio(matches, len(a) + len(b))\<close>, the float
  \<open>2.0 * matches / length\<close>, or \<open>1.0\<close> when both sequences are empty. The model keeps the
  exact quotient. \<open>Song.__eq__\<close> only compares it with the float literal \<open>0.8\<close>, and the
  correctly rounded quotient is at least the double nearest to 4/5 exactly when the exact
  quotient is at least 4/5, as long as the two titles together have fewer than \<open>2^50\<close>
  characters: a quotient below 4/5 is below it by at least \<open>2 / (5 * length)\<close>.
\<close>

definition matches :: "pystr \<Rightarrow> pystr \<Rightarrow> int" where
  "matches a b = sum_list (map (\<lambda>(i, j, k). k) (get_matching_blocks a b))"

definition calculate_ratio :: "int \<Rightarrow> int \<Rightarrow> rat" where
  "calculate_ratio m len = (if len \<noteq> 0 then 2 * of_int m / of_int len else 1)"

definition ratio :: "pystr \<Rightarrow> pystr \<Rightarrow> rat" where
  "ratio a b = calculate_ratio (matches a b) (int (length a) + int (length b))"

section \<open>Songs and playlists\<close>

record song =
  title :: pystr
  artist :: pystr
  album :: pystr
  duration :: int

text \<open>
  \<open>Song.__eq__\<close>: both titles are lowered (twice, as in the source) and compared by
  \<open>SequenceMatcher(None, a.lower(), b.lower()).ratio() >= 0.8\<close>. The dataclass decorator
  keeps a method \<open>__eq__\<close> that the class body defines, so this is the \<open>==\<close> of songs.
\<close>

definition song_eq :: "runtime \<Rightarrow> song \<Rightarrow> song \<Rightarrow> bool" where
  "song_eq R self that =
     (let a = py_lower R (title self); b = py_lower R (title that)
      in ratio (py_lower R a) (py_lower R b) \<ge> 8 / 10)"

text \<open>The string that \<open>Song.__eq__\<close> hands to \<open>SequenceMatcher\<close> for a song.\<close>

definition compared_title :: "runtime \<Rightarrow> song \<Rightarrow> pystr" where
  "compared_title R sg = py_lower R (py_lower R (title sg))"

text \<open>
  \<open>Playlist.__init__(self, songs, tag='')\<close> stores \<open>songs\<close> and then sets
  \<open>self.tag = None\<close>, whatever \<open>tag\<close> is.
\<close>

record playlist =
  songs :: "song list"
  tag :: "pystr option"

definition Playlist :: "song list \<Rightarrow> pystr \<Rightarrow> playlist" where
  "Playlist sgs tg = \<lparr>songs = sgs, tag = None\<rparr>"

text \<open>\<open>playlist_intersection\<close>: the two nested loops, appending to \<open>song_intersection\<close>.\<close>

fun intersect_inner :: "runtime \<Rightarrow> song \<Rightarrow> song list \<Rightarrow> song list \<Rightarrow> song list" where
  "intersect_inner R s1 [] song_intersection = song_intersection"
| "intersect_inner R s1 (s2 # rest) song_intersection =
     intersect_inner R s1 rest
       (if song_eq R s1 s2 then song_intersection @ [s1] else song_intersection)"

fun intersect_outer :: "runtime \<Rightarrow> song list \<Rightarrow> song list \<Rightarrow> song list \<Rightarrow> song list" where
  "intersect_outer R [] playlist_2 song_intersection = song_intersection"
| "intersect_outer R (s1 # rest) playlist_2 song_intersection =
     intersect_outer R rest playlist_2 (intersect_inner R s1 playlist_2 song_intersection)"

definition playlist_intersection :: "runtime \<Rightarrow> playlist \<Rightarrow> playlist \<Rightarrow> playlist" where
  "playlist_intersection R playlist_1 playlist_2 =
     Playlist (intersect_outer R (songs playlist_1) (songs playlist_2) []) (ascii ''intersect'')"

section \<open>Durations: \<open>int(str)\<close>, \<open>str.split\<close>, \<open>Song._parse_duration\<close>, \<open>Song.create\<close>\<close>

text \<open>
  Every failure of the duration conversion is a Python \<open>ValueError\<close>: the tuple
  assignment \<open>minutes, seconds = raw.split(":")\<close> raises it when the list does not have
  two elements, and \<open>int\<close> raises it on a string that is no integer literal. So is the
  \<open>ValueError(f"Malformed entry: {song_chunk}")\<close> of \<open>parse_filepath\<close>. The error value
  records which of the three it is, and what the message shows.
\<close>

datatype error_detail =
  Unpack nat
  | InvalidLiteral pystr
  | MalformedEntry "pystr list"

datatype error = ValueError error_detail

text \<open>
  \<open>int(s)\<close> for a string, base 10, as CPython does it. A string that is not pure ASCII
  is first rewritten: a code point below 127 stays, Unicode whitespace becomes a space, a
  Unicode decimal digit becomes the ASCII digit, anything else becomes \<open>?\<close> (and ends the
  string, which fails the conversion either way). Then: leading whitespace of C's
  \<open>isspace\<close>, one optional sign, digits with single underscores between them, trailing
  whitespace, and nothing else. More than 640 digits are refused when they exceed the
  interpreter's limit.
\<close>

definition c_isspace :: "nat \<Rightarrow> bool" where
  "c_isspace c = ((9 \<le> c \<and> c \<le> 13) \<or> c = 32)"

definition is_digit :: "nat \<Rightarrow> bool" where
  "is_digit c = (48 \<le> c \<and> c \<le> 57)"

definition py_decimal :: "runtime \<Rightarrow> nat \<Rightarrow> nat option" where
  "py_decimal R c =
     (if c < 128 then (if is_digit c then Some (c - 48) else None)
      else case uni_decimal R c of
             Some d \<Rightarrow> if d < 10 then Some d else None
           | None \<Rightarrow> None)"

definition transform_decimal_and_space :: "runtime \<Rightarrow> pystr \<Rightarrow> pystr" where
  "transform_decimal_and_space R s =
     (if is_ascii s then s
      else map (\<lambda>c. if c < 127 then c
                     else if py_isspace R c then 32
                     else case py_decimal R c of Some d \<Rightarrow> 48 + d | None \<Rightarrow> 63) s)"

fun double_underscore :: "pystr \<Rightarrow> bool" where
  "double_underscore (c # d # cs) = ((c = 95 \<and> d = 95) \<or> double_underscore (d # cs))"
| "double_underscore cs = False"

definition digits_value :: "pystr \<Rightarrow> int" where
  "digits_value ds = foldl (\<lambda>acc c. 10 * acc + int (c - 48)) 0 ds"

definition py_int :: "runtime \<Rightarrow> pystr \<Rightarrow> int option" where
  "py_int R s =
     (let t = dropWhile c_isspace (transform_decimal_and_space R s);
          negative = (t \<noteq> [] \<and> hd t = 45);
          u = (if t \<noteq> [] \<and> (hd t = 43 \<or> hd t = 45) then tl t else t);
          body = takeWhile (\<lambda>c. is_digit c \<or> c = 95) u;
          rest = dropWhile (\<lambda>c. is_digit c \<or> c = 95) u;
          digits = filter is_digit body
      in if body = [] \<or> hd body = 95 \<or> last body = 95 \<or> double_underscore body
            \<or> (length digits > 640 \<and> int_max_str_digits R > 0
                 \<and> length digits > int_max_str_digits R)
            \<or> dropWhile c_isspace rest \<noteq> []
         then None
         else Some (if negative then - digits_value digits else digits_value digits))"

text \<open>\<open>raw.split(":")\<close>: the pieces between the separators, \<open>cur\<close> being the piece read so far.\<close>

fun split_on :: "nat \<Rightarrow> pystr \<Rightarrow> pystr \<Rightarrow> pystr list" where
  "split_on sep cur [] = [cur]"
| "split_on sep cur (c # cs) =
     (if c = sep then cur # split_on sep [] cs else split_on sep (cur @ [c]) cs)"

text \<open>The argument of \<open>_parse_duration\<close> is an \<open>int\<close> or a \<open>str\<close>.\<close>

datatype raw_duration = IntRaw int | StrRaw pystr

definition parse_duration :: "runtime \<Rightarrow> raw_duration \<Rightarrow> error + int" where
  "parse_duration R raw =
     (case raw of
        IntRaw n \<Rightarrow> Inr n
      | StrRaw s \<Rightarrow>
          (case split_on 58 [] s of
             [minutes, seconds] \<Rightarrow>
               (case py_int R minutes of
                  None \<Rightarrow> Inl (ValueError (InvalidLiteral minutes))
                | Some m \<Rightarrow>
                    (case py_int R seconds of
                       None \<Rightarrow> Inl (ValueError (InvalidLiteral seconds))
                     | Some sec \<Rightarrow> Inr (m * 60 + sec)))
           | pieces \<Rightarrow> Inl (ValueError (Unpack (length pieces)))))"

definition create :: "runtime \<Rightarrow> pystr \<Rightarrow> pystr \<Rightarrow> pystr \<Rightarrow> raw_duration \<Rightarrow> error + song" where
  "create R ttl art alb dur =
     (case parse_duration R dur of
        Inl e \<Rightarrow> Inl e
      | Inr d \<Rightarrow> Inr \<lparr>title = ttl, artist = art, album = alb, duration = d\<rparr>)"

section \<open>The flat-file adapter \<open>parse_filepath\<close>\<close>

text \<open>
  The file is the list of the lines that iterating over it yields, each with its line
  terminator. Every round takes \<open>islice(f, 5)\<close>, stops on an empty chunk, strips the lines
  and drops those that strip to nothing, raises \<open>ValueError\<close> unless five are left, and
  appends the song made of the last four.
\<close>

definition nonblank :: "runtime \<Rightarrow> pystr list \<Rightarrow> pystr list" where
  "nonblank R song_chunk = filter (\<lambda>line. line \<noteq> []) (map (py_strip R) song_chunk)"

function parse_lines :: "runtime \<Rightarrow> pystr list \<Rightarrow> song list \<Rightarrow> error + song list" where
  "parse_lines R f sgs =
     (let song_chunk = take 5 f
      in if song_chunk = [] then Inr sgs
         else
           (case nonblank R song_chunk of
              [track_no, ttl, art, alb, dur] \<Rightarrow>
                (case create R ttl art alb (StrRaw dur) of
                   Inl e \<Rightarrow> Inl e
                 | Inr sg \<Rightarrow> parse_lines R (drop 5 f) (sgs @ [sg]))
            | stripped \<Rightarrow> Inl (ValueError (MalformedEntry stripped))))"
  by pat_completeness auto
termination
  by (relation "measure (\<lambda>(R, f, sgs). length f)") auto

declare parse_lines.simps [simp del]

definition parse_filepath :: "runtime \<Rightarrow> pystr list \<Rightarrow> error + playlist" where
  "parse_filepath R f =
     (case parse_lines R f [] of
        Inl e \<Rightarrow> Inl e
      | Inr sgs \<Rightarrow> Inr (Playlist sgs []))"

text \<open>
  A well-formed record, for stating what the adapter returns: five lines, none of them
  blank, the last four making the song \<open>sg\<close>.
\<close>

definition record_song :: "runtime \<Rightarrow> pystr list \<Rightarrow> song \<Rightarrow> bool" where
  "record_song R chunk sg =
     (case chunk of
        [track_no, ttl, art, alb, dur] \<Rightarrow>
          py_strip R track_no \<noteq> [] \<and> py_strip R ttl \<noteq> [] \<and> py_strip R art \<noteq> []
          \<and> py_strip R alb \<noteq> [] \<and> py_strip R dur \<noteq> []
          \<and> create R (py_strip R ttl) (py_strip R art) (py_strip R alb) (StrRaw (py_strip R dur))
              = Inr sg
      | _ \<Rightarrow> False)"

section \<open>The lyric cache: \<open>_sanitize\<close> and \<open>get_lyrics\<close>\<close>

text \<open>
  \<open>_sanitize\<close>: the regular expression \<open>[^-\w\s]\<close> deletes every character that is not a
  hyphen, a word character (alphanumeric or underscore) or whitespace; then \<open>strip()\<close>,
  \<open>replace(" ", "_")\<close> and \<open>lower()\<close>.
\<close>

definition is_word :: "runtime \<Rightarrow> nat \<Rightarrow> bool" where
  "is_word R c = (py_isalnum R c \<or> c = 95)"

text \<open>The characters that the substitution leaves in place: those outside \<open>[^-\w\s]\<close>.\<close>

definition kept :: "runtime \<Rightarrow> nat \<Rightarrow> bool" where
  "kept R c = (c = 45 \<or> is_word R c \<or> py_isspace R c)"

definition sanitize :: "runtime \<Rightarrow> pystr \<Rightarrow> pystr" where
  "sanitize R text =
     py_lower R
       (map (\<lambda>c. if c = 32 then 95 else c)
          (py_strip R (filter (kept R) text)))"

text \<open>
  For stating where \<open>_sanitize\<close> is idempotent: on the set \<open>S\<close> of characters,
  \<open>lower()\<close> works character by character. It replaces each character \<open>c\<close> of a string
  over \<open>S\<close> by one of its lowercase forms \<open>low c\<close> (the capital sigma has two, chosen by
  its place in the word); a lowercase form is again in \<open>S\<close>, is its own only lowercase
  form, is kept by the substitution if the character is, is whitespace exactly when the
  character is, and is a space only if the character is.
\<close>

definition lower_charwise :: "runtime \<Rightarrow> nat set \<Rightarrow> (nat \<Rightarrow> nat set) \<Rightarrow> bool" where
  "lower_charwise R S low =
     ((\<forall>u. set u \<subseteq> S \<longrightarrow> list_all2 (\<lambda>c d. d \<in> low c) u (py_lower R u))
      \<and> (\<forall>c\<in>S. \<forall>d\<in>low c.
            d \<in> S \<and> low d = {d} \<and> (kept R c \<longrightarrow> kept R d)
            \<and> py_isspace R d = py_isspace R c \<and> (d = 32 \<longrightarrow> c = 32))
      \<and> (32 \<in> S \<longrightarrow> 95 \<in> S))"

text \<open>
  \<open>get_lyrics(song, genius)\<close>. The state is the directory \<open>lyrics_cache\<close>:
  \<open>contents\<close> maps the name of each file to its characters. What the file system refuses
  is part of the state too, the rest of the record \<open>storage\<close>:
  \<^item> \<open>mkdir_raises\<close>: whether \<open>folder.mkdir(exist_ok=True)\<close> raises (the path is a file,
    the directory may not be created);
  \<^item> \<open>exists_raises\<close>: the names for which \<open>cache_path.exists()\<close> raises; it does for
    every error of \<open>stat\<close> other than those that mean "no such file", for one a name
    that is too long;
  \<^item> \<open>read_raises\<close>: the files that \<open>read_text\<close> cannot read or decode;
  \<^item> \<open>write_raises\<close>: \<open>None\<close> when \<open>write_text\<close> of a text to a name succeeds, otherwise
    what the failed call leaves behind: \<open>Some None\<close> when the directory is as before,
    \<open>Some (Some p)\<close> when the file now holds the characters \<open>p\<close> (none at all when the
    file was opened and the text could not be encoded);
  \<^item> \<open>linesep\<close>: the line separator of the platform.

  \<open>read_text\<close> opens the file in text mode, so it gives the characters with every line
  ending (\<open>\r\n\<close>, \<open>\r\<close>) turned into \<open>\n\<close>; \<open>write_text\<close> stores the text with every
  \<open>\n\<close> turned into the line separator.

  In the source \<open>mkdir\<close>, \<open>exists\<close> and \<open>read_text\<close> stand outside the \<open>try\<close>, so what
  they raise leaves \<open>get_lyrics\<close>: the result is \<open>Inl\<close>. \<open>write_text\<close> stands inside it,
  after the \<open>sleep\<close>: what it raises is caught by \<open>except Exception\<close>, reported, and the
  function returns the empty string.

  The provider's \<open>search_song(title, artist)\<close> raises, returns \<open>None\<close>, or returns a result
  with its lyrics. Besides the returned string and the new content of the directory, the
  model returns the calls made, in order: that is where the \<open>time.sleep(15)\<close> shows.
\<close>

datatype py_exception = OSError | UnicodeDecodeError

record storage =
  contents :: "pystr \<rightharpoonup> pystr"
  mkdir_raises :: "py_exception option"
  exists_raises :: "pystr \<Rightarrow> py_exception option"
  read_raises :: "pystr \<Rightarrow> py_exception option"
  write_raises :: "pystr \<Rightarrow> pystr \<Rightarrow> pystr option option"
  linesep :: pystr

fun universal_newlines :: "pystr \<Rightarrow> pystr" where
  "universal_newlines [] = []"
| "universal_newlines [c] = (if c = 13 then [10] else [c])"
| "universal_newlines (c # d # cs) =
     (if c = 13 \<and> d = 10 then 10 # universal_newlines cs
      else if c = 13 then 10 # universal_newlines (d # cs)
      else c # universal_newlines (d # cs))"

definition write_newlines :: "pystr \<Rightarrow> pystr \<Rightarrow> pystr" where
  "write_newlines sep text = concat (map (\<lambda>c. if c = 10 then sep else [c]) text)"

datatype search_result = Raises | NoMatch | Found pystr

datatype event =
  PrintInCache
  | Search pystr pystr
  | Sleep nat
  | WriteText pystr pystr
  | ReadText pystr
  | PrintError

record outcome =
  returned :: pystr
  files :: "pystr \<rightharpoonup> pystr"
  trace :: "event list"

definition cache_name :: "runtime \<Rightarrow> song \<Rightarrow> pystr" where
  "cache_name R sg = sanitize R (artist sg) @ ascii ''-'' @ sanitize R (title sg) @ ascii ''.txt''"

definition get_lyrics ::
  "runtime \<Rightarrow> song \<Rightarrow> (pystr \<Rightarrow> pystr \<Rightarrow> search_result) \<Rightarrow> storage
     \<Rightarrow> py_exception + outcome" where
  "get_lyrics R sg genius st =
     (case mkdir_raises st of
        Some e \<Rightarrow> Inl e
      | None \<Rightarrow>
          (let fname = cache_name R sg
           in case exists_raises st fname of
                Some e \<Rightarrow> Inl e
              | None \<Rightarrow>
                  (case contents st fname of
                     Some stored \<Rightarrow>
                       (case read_raises st fname of
                          Some e \<Rightarrow> Inl e
                        | None \<Rightarrow>
                            Inr \<lparr>returned = universal_newlines stored, files = contents st,
                                 trace = [PrintInCache, ReadText fname]\<rparr>)
                   | None \<Rightarrow>
                       (case genius (title sg) (artist sg) of
                          Raises \<Rightarrow>
                            Inr \<lparr>returned = [], files = contents st,
                                 trace = [Search (title sg) (artist sg), PrintError]\<rparr>
                        | NoMatch \<Rightarrow>
                            Inr \<lparr>returned = [], files = contents st,
                                 trace = [Search (title sg) (artist sg), Sleep 15]\<rparr>
                        | Found lyrics \<Rightarrow>
                            (case write_raises st fname lyrics of
                               None \<Rightarrow>
                                 Inr \<lparr>returned = lyrics,
                                      files = (contents st)
                                        (fname \<mapsto> write_newlines (linesep st) lyrics),
                                      trace = [Search (title sg) (artist sg), Sleep 15,
                                               WriteText fname lyrics]\<rparr>
                             | Some left \<Rightarrow>
                                 Inr \<lparr>returned = [],
                                      files = (case left of
                                                 None \<Rightarrow> contents st
                                               | Some p \<Rightarrow> (contents st)(fname \<mapsto> p)),
                                      trace = [Search (title sg) (artist sg), Sleep 15,
                                               WriteText fname lyrics, PrintError]\<rparr>)))))"

text \<open>
  Two storages for closed examples. \<open>ideal_storage\<close> refuses nothing. \<open>posix_storage\<close>
  refuses what a Linux file system with UTF-8 files refuses of names in ASCII: a name of
  more than 255 characters makes \<open>exists()\<close> raise \<open>OSError\<close>, and a text with a surrogate
  code point (U+D800 to U+DFFF) cannot be encoded, so \<open>write_text\<close> raises after the file
  was opened, and leaves it empty.
\<close>

definition ideal_storage :: "(pystr \<rightharpoonup> pystr) \<Rightarrow> storage" where
  "ideal_storage fs =
     \<lparr>contents = fs, mkdir_raises = None, exists_raises = (\<lambda>name. None),
      read_raises = (\<lambda>name. None), write_raises = (\<lambda>name text. None), linesep = [10]\<rparr>"



text \<open>
  A runtime for closed examples. Of the Unicode database it holds the Latin-1 supplement
  (U+0080 to U+00FF: its letters and numbers, the two spaces U+0085 and U+00A0, the
  capital letters U+00C0 to U+00DE lowering to the letter 32 places on) and what else the
  examples touch: U+0130 (capital I with dot above) is a letter and lowers to U+0069
  U+0307, and U+0307 (combining dot above) is no letter, digit or space and has no case.
  Every other code point counts as a caseless symbol.
\<close>

definition latin1_isalnum :: "nat \<Rightarrow> bool" where
  "latin1_isalnum c =
     (c = 170 \<or> c = 178 \<or> c = 179 \<or> c = 181 \<or> c = 185 \<or> c = 186
      \<or> (188 \<le> c \<and> c \<le> 190) \<or> (192 \<le> c \<and> c \<le> 214)
      \<or> (216 \<le> c \<and> c \<le> 246) \<or> (248 \<le> c \<and> c \<le> 255))"

definition latin1_lower :: "nat \<Rightarrow> nat" where
  "latin1_lower c =
     (if (65 \<le> c \<and> c \<le> 90) \<or> (192 \<le> c \<and> c \<le> 222 \<and> c \<noteq> 215) then c + 32 else c)"

definition sample_runtime :: runtime where
  "sample_runtime =
     \<lparr>uni_isalnum = (\<lambda>c. latin1_isalnum c \<or> c = 304),
      uni_isspace = (\<lambda>c. c = 133 \<or> c = 160),
      uni_decimal = (\<lambda>c. None),
      uni_lower = (\<lambda>s. concat (map (\<lambda>c. if c = 304 then [105, 775] else [latin1_lower c]) s)),
      int_max_str_digits = 4300\<rparr>"

section \<open>Songs used in the closed examples\<close>

definition love_song :: song where
  "love_song = \<lparr>title = ascii ''Love Song'', artist = ascii ''Sara Bareilles'',
     album = ascii ''Little Voice'', duration = 258\<rparr>"

definition lover_song :: song where
  "lover_song = \<lparr>title = ascii ''Lover Song'', artist = ascii ''The Lovers'',
     album = ascii ''Songs'', duration = 200\<rparr>"

definition love_songs :: song where
  "love_songs = \<lparr>title = ascii ''Love Songs'', artist = ascii ''Kaash Paige'',
     album = ascii ''Parked Car Convos'', duration = 152\<rparr>"

definition love_song_remastered :: song where
  "love_song_remastered = \<lparr>title = ascii ''Love Song (Remastered)'', artist = ascii ''The Cure'',
     album = ascii ''Disintegration'', duration = 209\<rparr>"

definition lover_boy_song :: song where
  "lover_boy_song = \<lparr>title = ascii ''Lover Boy Song'', artist = ascii ''The Lovers'',
     album = ascii ''Songs'', duration = 187\<rparr>"

definition down_here_down_there :: song where
  "down_here_down_there = \<lparr>title = ascii ''Down Here Down There'', artist = ascii ''A'',
     album = ascii ''B'', duration = 180\<rparr>"

definition down_there_down_here :: song where
  "down_there_down_here = \<lparr>title = ascii ''Down There Down Here'', artist = ascii ''A'',
     album = ascii ''B'', duration = 180\<rparr>"






definition sigur_ros :: pystr where
  "sigur_ros = ascii '' SIGUR R'' @ [211] @ ascii ''S & Beyonc'' @ [233] @ ascii ''! ''"

definition ac_dc :: pystr where
  "ac_dc = ascii ''  AC/DC Live! ''"

text \<open>A file of two records, and three more lines.\<close>

definition two_records :: "pystr list" where
  "two_records = map ascii
     [''1'' @ [CHR 0x0A], ''Love Song'' @ [CHR 0x0A], ''Sara Bareilles'' @ [CHR 0x0A],
      ''Little Voice'' @ [CHR 0x0A], ''4:18'' @ [CHR 0x0A],
      ''2'' @ [CHR 0x0A], ''Lover Song'' @ [CHR 0x0A], ''The Lovers'' @ [CHR 0x0A],
      ''Songs'' @ [CHR 0x0A], ''3:20'' @ [CHR 0x0A]]"

definition short_tail :: "pystr list" where
  "short_tail = map ascii [''3'' @ [CHR 0x0A], ''Love Songs'' @ [CHR 0x0A], ''Kaash Paige'' @ [CHR 0x0A]]"

section \<open>The intersection of two playlists\<close>

lemma intersect_inner_eq:
  "intersect_inner R s1 ys acc = acc @ map (\<lambda>s2. s1) (filter (song_eq R s1) ys)"
  by (induction ys arbitrary: acc) simp_all

lemma intersect_outer_eq:
  "intersect_outer R xs ys acc =
     acc @ concat (map (\<lambda>s1. map (\<lambda>s2. s1) (filter (song_eq R s1) ys)) xs)"
  by (induction xs arbitrary: acc) (simp_all add: intersect_inner_eq)

text \<open>
  Claim C1. For all playlists \<open>A\<close> and \<open>B\<close> the songs of
  \<open>playlist_intersection(A, B)\<close> are the list \<open>[a | a in A, b in B, a == b]\<close>, scanning
  \<open>A\<close> in order and, for each of its songs, \<open>B\<close> in order. It is the song of \<open>A\<close> that is
  appended, once for each song of \<open>B\<close> it matches, so a song of \<open>A\<close> that matches \<open>k\<close> songs
  of \<open>B\<close> stands \<open>k\<close> times in a row. In particular, for \<open>A = [x]\<close> and \<open>B = [x1, x2]\<close> with
  \<open>x\<close> matching both, the result is \<open>[x, x]\<close>.
\<close>

theorem playlist_intersection_songs:
  "songs (playlist_intersection R A B) = [a. a \<leftarrow> songs A, b \<leftarrow> songs B, song_eq R a b]
   \<and> songs (playlist_intersection R A B)
       = concat (map (\<lambda>a. replicate (length (filter (song_eq R a) (songs B))) a) (songs A))
   \<and> (song_eq R x x1 \<longrightarrow> song_eq R x x2 \<longrightarrow>
        songs (playlist_intersection R (Playlist [x] ta) (Playlist [x1, x2] tb)) = [x, x])"
proof -
  have inner: "concat (map (\<lambda>b. if song_eq R a b then [a] else []) ys)
      = map (\<lambda>b. a) (filter (song_eq R a) ys)" for a ys
    by (induction ys) simp_all
  have rep: "map (\<lambda>b. a) zs = replicate (length zs) a" for a :: song and zs :: "song list"
    by (induction zs) simp_all
  have s: "songs (playlist_intersection R A B)
      = concat (map (\<lambda>a. map (\<lambda>b. a) (filter (song_eq R a) (songs B))) (songs A))" for A B
    by (simp add: playlist_intersection_def Playlist_def intersect_outer_eq)
  show ?thesis
    by (simp add: s inner rep Playlist_def)
qed

theorem playlist_intersection_songs_witness:
  "song_eq sample_runtime love_song lover_song \<and> song_eq sample_runtime love_song love_songs
   \<and> songs (playlist_intersection sample_runtime (Playlist [love_song] (ascii ''A''))
        (Playlist [lover_song, love_songs] (ascii ''B''))) = [love_song, love_song]"
proof -
  have h1: "song_eq sample_runtime love_song lover_song" by code_simp
  have h2: "song_eq sample_runtime love_song love_songs" by code_simp
  from playlist_intersection_songs[of sample_runtime _ _ love_song lover_song love_songs
      "ascii ''A''" "ascii ''B''"] h1 h2
  have "songs (playlist_intersection sample_runtime (Playlist [love_song] (ascii ''A''))
        (Playlist [lover_song, love_songs] (ascii ''B''))) = [love_song, love_song]"
    by blast
  with h1 h2 show ?thesis by blast
qed

text \<open>
  Claim C8 says that a playlist carries the tag it was constructed with and that the
  result of \<open>playlist_intersection\<close> carries the tag \<open>intersect\<close>. The constructor drops its
  argument: the tag of every playlist is \<open>None\<close>, also that of an intersection.
\<close>

theorem playlist_tag_is_None:
  "tag (Playlist sgs (ascii ''intersect'')) = None
   \<and> tag (Playlist sgs tg) = None
   \<and> tag (playlist_intersection R playlist_1 playlist_2) = None"
  by (simp add: Playlist_def playlist_intersection_def)

section \<open>Equality of songs\<close>

text \<open>
  The comparison with \<open>0.8\<close> in integers: \<open>2 * matches / length >= 4/5\<close> is
  \<open>5 * matches >= 2 * length\<close>.
\<close>

lemma matches_Nil: "matches [] [] = 0"
  by code_simp

lemma ratio_threshold:
  "(ratio a b \<ge> 8 / 10) = (5 * matches a b \<ge> 2 * (int (length a) + int (length b)))"
proof (cases "a = [] \<and> b = []")
  case True
  then show ?thesis by (simp add: ratio_def calculate_ratio_def matches_Nil)
next
  case False
  then have pos: "0 < int (length a) + int (length b)" by (cases a; cases b) simp_all
  define len where "len = int (length a) + int (length b)"
  define m where "m = matches a b"
  have "(8 / 10 \<le> 2 * (of_int m :: rat) / of_int len) = (8 * (of_int len :: rat) \<le> 10 * (2 * of_int m))"
    using pos unfolding len_def[symmetric] by (simp add: field_simps)
  also have "\<dots> = ((of_int (8 * len) :: rat) \<le> of_int (20 * m))" by simp
  also have "\<dots> = (8 * len \<le> 20 * m)" by (simp only: of_int_le_iff)
  also have "\<dots> = (2 * len \<le> 5 * m)" by auto
  finally show ?thesis using pos by (simp add: ratio_def calculate_ratio_def len_def m_def)
qed

text \<open>
  Claim C4 says that equality of songs is symmetric. It is not: the number of matched
  characters that \<open>SequenceMatcher\<close> finds depends on which title is its first sequence.
  With the title "Down Here Down There" first and "Down There Down Here" second it
  matches 19 of the 20 characters, the other way round 10, so the first song equals the
  second and the second does not equal the first.
\<close>

theorem song_eq_not_symmetric:
  "song_eq sample_runtime down_here_down_there down_there_down_here
   \<and> \<not> song_eq sample_runtime down_there_down_here down_here_down_there"
  by code_simp

text \<open>
  Claim C4 as amended. \<open>a == b\<close> holds exactly when five times the number of matched
  characters, with the lowered title of \<open>a\<close> as the first sequence and that of \<open>b\<close> as the
  second, is at least twice the sum of the two lengths. The sum of the lengths does not
  depend on the order, so \<open>a == b\<close> and \<open>b == a\<close> agree whenever the number of matched
  characters is the same in both orders.
\<close>

theorem song_eq_swap:
  "song_eq R a b = (5 * matches (compared_title R a) (compared_title R b)
       \<ge> 2 * (int (length (compared_title R a)) + int (length (compared_title R b))))
   \<and> (matches (compared_title R a) (compared_title R b)
        = matches (compared_title R b) (compared_title R a)
      \<longrightarrow> song_eq R a b = song_eq R b a)"
proof -
  have e: "song_eq R x y = (5 * matches (compared_title R x) (compared_title R y)
       \<ge> 2 * (int (length (compared_title R x)) + int (length (compared_title R y))))" for x y
    unfolding song_eq_def Let_def compared_title_def by (rule ratio_threshold)
  show ?thesis
    unfolding e[of a b] e[of b a] by (simp add: add.commute)
qed

theorem song_eq_swap_witness:
  "matches (compared_title sample_runtime love_song) (compared_title sample_runtime lover_song)
     = matches (compared_title sample_runtime lover_song) (compared_title sample_runtime love_song)
   \<and> song_eq sample_runtime love_song lover_song = song_eq sample_runtime lover_song love_song"
proof -
  have h: "matches (compared_title sample_runtime love_song) (compared_title sample_runtime lover_song)
     = matches (compared_title sample_runtime lover_song) (compared_title sample_runtime love_song)"
    by code_simp
  from song_eq_swap[of sample_runtime love_song lover_song] h
  have "song_eq sample_runtime love_song lover_song = song_eq sample_runtime lover_song love_song"
    by blast
  with h show ?thesis by blast
qed

text \<open>
  Claim C5 says that equality is not transitive and gives the titles "Love Song",
  "Love Song (Remastered)" and "Lover Song" as a triple with \<open>a == b\<close>, \<open>b == c\<close> and not
  \<open>a == c\<close>. Of these three titles the first and the second are not equal (ratio 18/31),
  nor are the second and the third (ratio 9/16), and the first and the third are equal
  (ratio 18/19).
\<close>

theorem song_eq_spec_triple:
  "\<not> song_eq sample_runtime love_song love_song_remastered
   \<and> \<not> song_eq sample_runtime love_song_remastered lover_song
   \<and> song_eq sample_runtime love_song lover_song"
  by code_simp

text \<open>
  Claim C5 as amended. Equality of songs is not transitive: with the titles "Love Song",
  "Lover Song" and "Lover Boy Song", the first song equals the second (ratio 18/19), the
  second equals the third (ratio 5/6), and the first does not equal the third (ratio
  18/23).
\<close>

theorem song_eq_not_transitive:
  "song_eq R love_song lover_song
   \<and> song_eq R lover_song lover_boy_song
   \<and> \<not> song_eq R love_song lover_boy_song"
  by code_simp

section \<open>The lyric cache\<close>









text \<open>
  Claim C3 says that the 15 second delay follows every call of the provider, also one
  that raises. When \<open>search_song\<close> raises, control leaves the \<open>try\<close> block before
  \<open>time.sleep(15)\<close>: the calls made are the search and the error message, and no delay.
  After a search that finds nothing the delay is there.
\<close>

theorem get_lyrics_raise_skips_sleep:
  "get_lyrics R sg (\<lambda>t a. Raises) (ideal_storage Map.empty)
     = Inr \<lparr>returned = [], files = Map.empty,
            trace = [Search (title sg) (artist sg), PrintError]\<rparr>
   \<and> get_lyrics R sg (\<lambda>t a. NoMatch) (ideal_storage Map.empty)
     = Inr \<lparr>returned = [], files = Map.empty,
            trace = [Search (title sg) (artist sg), Sleep 15]\<rparr>"
  by (simp add: get_lyrics_def ideal_storage_def)

section \<open>Durations\<close>

text \<open>What \<open>split\<close> returns: one piece when there is no separator, two when there is one.\<close>

lemma split_on_not_Nil: "split_on sep cur s \<noteq> []"
  by (induction s arbitrary: cur) auto

lemma split_on_single: "(split_on sep cur s = [x]) = (sep \<notin> set s \<and> x = cur @ s)"
proof (induction s arbitrary: cur)
  case Nil
  show ?case by auto
next
  case (Cons c cs)
  show ?case
  proof (cases "c = sep")
    case True
    have "split_on sep [] cs \<noteq> []" by (rule split_on_not_Nil)
    with True show ?thesis by simp
  next
    case False
    with Cons[of "cur @ [c]"] show ?thesis by auto
  qed
qed

lemma split_on_two:
  "(split_on sep cur s = [m, t])
     = (\<exists>p. s = p @ sep # t \<and> sep \<notin> set p \<and> sep \<notin> set t \<and> m = cur @ p)"
proof (induction s arbitrary: cur)
  case Nil
  show ?case by simp
next
  case (Cons c cs)
  show ?case
  proof (cases "c = sep")
    case True
    have "(\<exists>p. c # cs = p @ sep # t \<and> sep \<notin> set p \<and> sep \<notin> set t \<and> m = cur @ p)
        = (cs = t \<and> sep \<notin> set t \<and> m = cur)"
    proof
      assume "\<exists>p. c # cs = p @ sep # t \<and> sep \<notin> set p \<and> sep \<notin> set t \<and> m = cur @ p"
      then obtain p where p: "c # cs = p @ sep # t" "sep \<notin> set p" "sep \<notin> set t" "m = cur @ p"
        by blast
      from p(1,2) True have "p = []" by (cases p) auto
      with p show "cs = t \<and> sep \<notin> set t \<and> m = cur" by simp
    next
      assume "cs = t \<and> sep \<notin> set t \<and> m = cur"
      with True show "\<exists>p. c # cs = p @ sep # t \<and> sep \<notin> set p \<and> sep \<notin> set t \<and> m = cur @ p"
        by (intro exI[of _ "[]"]) simp
    qed
    with True show ?thesis by (auto simp: split_on_single)
  next
    case False
    have "(\<exists>p. c # cs = p @ sep # t \<and> sep \<notin> set p \<and> sep \<notin> set t \<and> m = cur @ p)
        = (\<exists>q. cs = q @ sep # t \<and> sep \<notin> set q \<and> sep \<notin> set t \<and> m = (cur @ [c]) @ q)"
    proof
      assume "\<exists>p. c # cs = p @ sep # t \<and> sep \<notin> set p \<and> sep \<notin> set t \<and> m = cur @ p"
      then obtain p where p: "c # cs = p @ sep # t" "sep \<notin> set p" "sep \<notin> set t" "m = cur @ p"
        by blast
      from p(1) False obtain q where q: "p = c # q" by (cases p) auto
      with p show "\<exists>q. cs = q @ sep # t \<and> sep \<notin> set q \<and> sep \<notin> set t \<and> m = (cur @ [c]) @ q"
        by (intro exI[of _ q]) simp
    next
      assume "\<exists>q. cs = q @ sep # t \<and> sep \<notin> set q \<and> sep \<notin> set t \<and> m = (cur @ [c]) @ q"
      then obtain q where q: "cs = q @ sep # t" "sep \<notin> set q" "sep \<notin> set t" "m = (cur @ [c]) @ q"
        by blast
      with False show "\<exists>p. c # cs = p @ sep # t \<and> sep \<notin> set p \<and> sep \<notin> set t \<and> m = cur @ p"
        by (intro exI[of _ "c # q"]) simp
    qed
    with False Cons[of "cur @ [c]"] show ?thesis by simp
  qed
qed

lemma parse_duration_Inr:
  "(parse_duration R (StrRaw s) = Inr v)
     = (\<exists>m t x y. s = m @ 58 # t \<and> 58 \<notin> set m \<and> 58 \<notin> set t
          \<and> py_int R m = Some x \<and> py_int R t = Some y \<and> v = x * 60 + y)"
proof
  assume a: "parse_duration R (StrRaw s) = Inr v"
  then obtain m t where mt: "split_on 58 [] s = [m, t]"
    by (auto simp: parse_duration_def split: list.splits)
  with a obtain x y where xy: "py_int R m = Some x" "py_int R t = Some y" "v = x * 60 + y"
    by (auto simp: parse_duration_def split: option.splits)
  from mt have "s = m @ 58 # t \<and> 58 \<notin> set m \<and> 58 \<notin> set t" by (auto simp: split_on_two)
  with xy show "\<exists>m t x y. s = m @ 58 # t \<and> 58 \<notin> set m \<and> 58 \<notin> set t
          \<and> py_int R m = Some x \<and> py_int R t = Some y \<and> v = x * 60 + y" by blast
next
  assume "\<exists>m t x y. s = m @ 58 # t \<and> 58 \<notin> set m \<and> 58 \<notin> set t
          \<and> py_int R m = Some x \<and> py_int R t = Some y \<and> v = x * 60 + y"
  then obtain m t x y where h: "s = m @ 58 # t" "58 \<notin> set m" "58 \<notin> set t"
      "py_int R m = Some x" "py_int R t = Some y" "v = x * 60 + y" by blast
  then have "split_on 58 [] s = [m, t]" by (auto simp: split_on_two)
  with h show "parse_duration R (StrRaw s) = Inr v" by (simp add: parse_duration_def)
qed

text \<open>
  Claim C6. \<open>_parse_duration("3:45")\<close> is 225; an integer is returned as it is; a string
  is converted exactly when it has one colon and \<open>int\<close> accepts both halves, to
  minutes times 60 plus seconds; every other string raises \<open>ValueError\<close>, the error of
  this conversion: "abc" and "1:2:3" fail in the tuple assignment, with one and with three
  pieces.
\<close>

theorem parse_duration_cases:
  "parse_duration R (StrRaw (ascii ''3:45'')) = Inr 225
   \<and> parse_duration R (IntRaw n) = Inr n
   \<and> ((parse_duration R (StrRaw s) = Inr v)
        = (\<exists>m t x y. s = m @ 58 # t \<and> 58 \<notin> set m \<and> 58 \<notin> set t
             \<and> py_int R m = Some x \<and> py_int R t = Some y \<and> v = x * 60 + y))
   \<and> ((\<nexists>m t x y. s = m @ 58 # t \<and> 58 \<notin> set m \<and> 58 \<notin> set t
             \<and> py_int R m = Some x \<and> py_int R t = Some y)
        \<longrightarrow> (\<exists>d. parse_duration R (StrRaw s) = Inl (ValueError d)))
   \<and> parse_duration R (StrRaw (ascii ''abc'')) = Inl (ValueError (Unpack 1))
   \<and> parse_duration R (StrRaw (ascii ''1:2:3'')) = Inl (ValueError (Unpack 3))"
proof -
  have a: "parse_duration R (StrRaw (ascii ''3:45'')) = Inr 225" by code_simp
  have b: "parse_duration R (IntRaw n) = Inr n" by (simp add: parse_duration_def)
  have d: "\<exists>d. parse_duration R (StrRaw s) = Inl (ValueError d)"
    if "\<nexists>m t x y. s = m @ 58 # t \<and> 58 \<notin> set m \<and> 58 \<notin> set t
             \<and> py_int R m = Some x \<and> py_int R t = Some y"
  proof (cases "parse_duration R (StrRaw s)")
    case (Inl e)
    then show ?thesis by (cases e) simp
  next
    case (Inr w)
    with that show ?thesis unfolding parse_duration_Inr by blast
  qed
  have e: "parse_duration R (StrRaw (ascii ''abc'')) = Inl (ValueError (Unpack 1))" by code_simp
  have f: "parse_duration R (StrRaw (ascii ''1:2:3'')) = Inl (ValueError (Unpack 3))" by code_simp
  from a b parse_duration_Inr d e f show ?thesis by blast
qed

theorem parse_duration_cases_witness:
  "(\<nexists>m t x y. ascii ''seven'' = m @ 58 # t \<and> 58 \<notin> set m \<and> 58 \<notin> set t
       \<and> py_int sample_runtime m = Some x \<and> py_int sample_runtime t = Some y)
   \<and> (\<exists>d. parse_duration sample_runtime (StrRaw (ascii ''seven'')) = Inl (ValueError d))
   \<and> parse_duration sample_runtime (StrRaw (ascii ''12:07'')) = Inr 727"
proof -
  have n: "58 \<notin> set (ascii ''seven'')" by (simp add: ascii_def)
  have h: "\<nexists>m t x y. ascii ''seven'' = m @ 58 # t \<and> 58 \<notin> set m \<and> 58 \<notin> set t
       \<and> py_int sample_runtime m = Some x \<and> py_int sample_runtime t = Some y"
  proof
    assume "\<exists>m t x y. ascii ''seven'' = m @ 58 # t \<and> 58 \<notin> set m \<and> 58 \<notin> set t
       \<and> py_int sample_runtime m = Some x \<and> py_int sample_runtime t = Some y"
    then obtain m t where "ascii ''seven'' = m @ 58 # t" by blast
    then have "58 \<in> set (ascii ''seven'')" by simp
    with n show False by blast
  qed
  have p: "ascii ''12:07'' = ascii ''12'' @ 58 # ascii ''07'' \<and> 58 \<notin> set (ascii ''12'')
      \<and> 58 \<notin> set (ascii ''07'') \<and> py_int sample_runtime (ascii ''12'') = Some 12
      \<and> py_int sample_runtime (ascii ''07'') = Some 7 \<and> (727 :: int) = 12 * 60 + 7"
    by code_simp
  from parse_duration_cases[of sample_runtime _ "ascii ''seven''"] h
  have 1: "\<exists>d. parse_duration sample_runtime (StrRaw (ascii ''seven'')) = Inl (ValueError d)"
    by blast
  from parse_duration_cases[of sample_runtime _ "ascii ''12:07''" 727] p
  have 2: "parse_duration sample_runtime (StrRaw (ascii ''12:07'')) = Inr 727"
    by blast
  from h 1 2 show ?thesis by blast
qed

text \<open>\<open>int\<close> gives a negative number only for a string with a minus sign.\<close>

lemma foldl_digits_nonneg:
  "0 \<le> a \<Longrightarrow> 0 \<le> foldl (\<lambda>acc c. 10 * acc + int (c - 48)) a ds"
  by (induction ds arbitrary: a) simp_all

lemma digits_value_nonneg: "0 \<le> digits_value ds"
  by (simp add: digits_value_def foldl_digits_nonneg)

lemma transform_no_minus:
  "45 \<notin> set s \<Longrightarrow> 45 \<notin> set (transform_decimal_and_space R s)"
  by (auto simp: transform_decimal_and_space_def split: if_splits option.splits)

lemma py_int_nonneg:
  assumes "py_int R s = Some v" and "45 \<notin> set s"
  shows "0 \<le> v"
proof -
  define t where "t = dropWhile c_isspace (transform_decimal_and_space R s)"
  have "set t \<subseteq> set (transform_decimal_and_space R s)"
    unfolding t_def by (rule set_dropWhileD[THEN subsetI])
  with assms(2) have "45 \<notin> set t" using transform_no_minus by blast
  then have "\<not> (t \<noteq> [] \<and> hd t = 45)" by (cases t) auto
  with assms(1) show ?thesis
    unfolding py_int_def t_def[symmetric] Let_def
    by (auto simp: digits_value_nonneg split: if_splits)
qed

text \<open>
  Claim C7 says that the duration of every song made by \<open>Song.create\<close> is non-negative.
  Nothing checks the sign: the integer -5 is stored as it is, and "-1:30" is stored as
  -30.
\<close>

theorem create_negative_duration:
  "create sample_runtime (ascii ''Love Song'') (ascii ''Sara Bareilles'') (ascii ''Little Voice'')
      (IntRaw (- 5))
     = Inr \<lparr>title = ascii ''Love Song'', artist = ascii ''Sara Bareilles'',
            album = ascii ''Little Voice'', duration = - 5\<rparr>
   \<and> create sample_runtime (ascii ''Love Song'') (ascii ''Sara Bareilles'') (ascii ''Little Voice'')
      (StrRaw (ascii ''-1:30''))
     = Inr \<lparr>title = ascii ''Love Song'', artist = ascii ''Sara Bareilles'',
            album = ascii ''Little Voice'', duration = - 30\<rparr>"
  by code_simp

text \<open>
  Claim C7 as amended. The duration of a song made by \<open>Song.create\<close> is an integer number
  of seconds: the integer given, or minutes times 60 plus seconds of the string given. It
  is non-negative when the integer given is, and when the string given has no minus sign.
\<close>

theorem create_duration:
  "create R ttl art alb raw = Inr sg \<Longrightarrow>
     (case raw of
        IntRaw n \<Rightarrow> duration sg = n
      | StrRaw s \<Rightarrow>
          (\<exists>m t x y. s = m @ 58 # t \<and> py_int R m = Some x \<and> py_int R t = Some y
             \<and> duration sg = x * 60 + y))
     \<and> ((\<exists>n. raw = IntRaw n \<and> 0 \<le> n) \<or> (\<exists>s. raw = StrRaw s \<and> 45 \<notin> set s)
          \<longrightarrow> 0 \<le> duration sg)"
proof (cases raw)
  case (IntRaw n)
  assume "create R ttl art alb raw = Inr sg"
  with IntRaw show ?thesis by (auto simp: create_def parse_duration_def)
next
  case (StrRaw s)
  assume "create R ttl art alb raw = Inr sg"
  with StrRaw have "parse_duration R (StrRaw s) = Inr (duration sg)"
    by (auto simp: create_def split: sum.splits)
  then obtain m t x y where h: "s = m @ 58 # t" "py_int R m = Some x" "py_int R t = Some y"
      "duration sg = x * 60 + y"
    unfolding parse_duration_Inr by blast
  have "0 \<le> duration sg" if "45 \<notin> set s"
  proof -
    from that h(1) have "45 \<notin> set m" "45 \<notin> set t" by auto
    with h(2,3) have "0 \<le> x" "0 \<le> y" by (auto dest: py_int_nonneg)
    with h(4) show ?thesis by simp
  qed
  with StrRaw h show ?thesis by auto
qed

theorem create_duration_witness:
  "create sample_runtime (ascii ''Love Song'') (ascii ''Sara Bareilles'') (ascii ''Little Voice'')
      (StrRaw (ascii ''4:18'')) = Inr love_song
   \<and> 45 \<notin> set (ascii ''4:18'')
   \<and> 0 \<le> duration love_song"
proof -
  have c: "create sample_runtime (ascii ''Love Song'') (ascii ''Sara Bareilles'')
      (ascii ''Little Voice'') (StrRaw (ascii ''4:18'')) = Inr love_song"
    by code_simp
  have m: "45 \<notin> set (ascii ''4:18'')" by (simp add: ascii_def)
  from create_duration[OF c] m have "0 \<le> duration love_song" by blast
  with c m show ?thesis by blast
qed

section \<open>The cache key\<close>

text \<open>
  \<open>strip\<close> leaves a string alone that neither starts nor ends with whitespace, and what it
  returns neither starts nor ends with whitespace.
\<close>

lemma strip_fixed:
  assumes "s = [] \<or> (\<not> P (hd s) \<and> \<not> P (last s))"
  shows "rev (dropWhile P (rev (dropWhile P s))) = s"
proof (cases s)
  case Nil
  then show ?thesis by simp
next
  case (Cons c cs)
  with assms have h: "\<not> P (hd s)" and l: "\<not> P (last s)" by auto
  from h Cons have 1: "dropWhile P s = s" by simp
  from Cons have ne: "s \<noteq> []" by simp
  then have "hd (rev s) = last s" by (simp add: hd_rev)
  with l have "\<not> P (hd (rev s))" by simp
  moreover from ne have "rev s \<noteq> []" by simp
  ultimately have 2: "dropWhile P (rev s) = rev s" by (cases "rev s") auto
  show ?thesis by (simp add: 1 2)
qed

lemma strip_ends:
  assumes g_def: "g = rev (dropWhile P (rev (dropWhile P s)))"
  shows "g = [] \<or> (\<not> P (hd g) \<and> \<not> P (last g))"
proof (cases "g = []")
  case True
  then show ?thesis by simp
next
  case False
  define x where "x = dropWhile P s"
  define y where "y = dropWhile P (rev x)"
  have g: "g = rev y" by (simp add: g_def x_def y_def)
  with False have yn: "y \<noteq> []" by simp
  then have "\<not> P (hd y)" unfolding y_def by (rule hd_dropWhile)
  then have l: "\<not> P (last g)" using yn by (simp add: g last_rev)
  have "rev x = takeWhile P (rev x) @ y" by (simp add: y_def)
  then have "x = rev y @ rev (takeWhile P (rev x))"
    by (metis rev_append rev_rev_ident)
  then have xg: "x = g @ rev (takeWhile P (rev x))" by (simp add: g)
  with False have "x \<noteq> []" by auto
  then have "\<not> P (hd x)" unfolding x_def by (rule hd_dropWhile)
  moreover from xg False have "hd x = hd g" by (metis hd_append2)
  ultimately show ?thesis using l by simp
qed

lemma set_strip: "set (rev (dropWhile P (rev (dropWhile P s)))) \<subseteq> set s"
proof -
  have "set (dropWhile P (rev (dropWhile P s))) \<subseteq> set (rev (dropWhile P s))"
    by (rule subsetI) (rule set_dropWhileD)
  moreover have "set (dropWhile P s) \<subseteq> set s"
    by (rule subsetI) (rule set_dropWhileD)
  ultimately show ?thesis by auto
qed

text \<open>
  Where \<open>lower()\<close> works character by character, a second \<open>_sanitize\<close> changes nothing.
  The ASCII characters are such a set, whatever the Unicode database; in the runtime of
  the examples, so are all characters but U+0130.
\<close>

lemma list_all2_ends:
  assumes "list_all2 P xs ys" and "xs \<noteq> []"
  shows "P (hd xs) (hd ys) \<and> P (last xs) (last ys)"
proof -
  from assms have len: "length xs = length ys" and ne: "ys \<noteq> []"
    by (auto simp: list_all2_lengthD)
  from assms(2) have "0 < length xs" by simp
  with assms(1) have "P (xs ! 0) (ys ! 0)" by (rule list_all2_nthD)
  moreover from assms(2) have "length xs - 1 < length xs" by simp
  with assms(1) have "P (xs ! (length xs - 1)) (ys ! (length xs - 1))" by (rule list_all2_nthD)
  ultimately show ?thesis
    using assms(2) ne len by (simp add: hd_conv_nth last_conv_nth)
qed

lemma sanitize_idempotent_on:
  assumes cw: "lower_charwise R S low" and sub: "set s \<subseteq> S"
  shows "sanitize R (sanitize R s) = sanitize R s"
proof -
  let ?sp = "\<lambda>c::nat. if c = 32 then 95 else c"
  from cw have lw: "\<And>u. set u \<subseteq> S \<Longrightarrow> list_all2 (\<lambda>c d. d \<in> low c) u (py_lower R u)"
    and ch: "\<And>c d. c \<in> S \<Longrightarrow> d \<in> low c \<Longrightarrow>
          d \<in> S \<and> low d = {d} \<and> (kept R c \<longrightarrow> kept R d)
          \<and> py_isspace R d = py_isspace R c \<and> (d = 32 \<longrightarrow> c = 32)"
    and us: "32 \<in> S \<Longrightarrow> 95 \<in> S"
    unfolding lower_charwise_def by blast+
  define f where "f = filter (kept R) s"
  define g where "g = py_strip R f"
  define h where "h = map ?sp g"
  define t where "t = py_lower R h"
  have st: "sanitize R s = t" by (simp add: sanitize_def f_def g_def h_def t_def)
  have gset: "set g \<subseteq> set f" unfolding g_def py_strip_def by (rule set_strip)
  have fprop: "\<forall>c\<in>set f. c \<in> S \<and> kept R c" using sub by (auto simp: f_def)
  with gset have gprop: "\<forall>c\<in>set g. c \<in> S \<and> kept R c" by blast
  have k95: "kept R 95" by (simp add: kept_def is_word_def)
  have hprop: "\<forall>c\<in>set h. c \<in> S \<and> kept R c \<and> c \<noteq> 32"
  proof
    fix c assume "c \<in> set h"
    then obtain c0 where c0: "c0 \<in> set g" "c = ?sp c0" by (auto simp: h_def)
    with gprop have "c0 \<in> S" "kept R c0" by auto
    with c0(2) us k95 show "c \<in> S \<and> kept R c \<and> c \<noteq> 32" by auto
  qed
  then have hsub: "set h \<subseteq> S" by blast
  from lw[OF hsub] have rel: "list_all2 (\<lambda>c d. d \<in> low c) h t" by (simp add: t_def)
  have tprop: "\<forall>d\<in>set t. d \<in> S \<and> kept R d \<and> d \<noteq> 32 \<and> low d = {d}"
  proof
    fix d assume "d \<in> set t"
    then obtain i where i: "i < length t" "t ! i = d" by (auto simp: in_set_conv_nth)
    with rel have il: "i < length h" by (simp add: list_all2_lengthD)
    with rel i have dl: "d \<in> low (h ! i)" by (auto dest: list_all2_nthD)
    from il have "h ! i \<in> set h" by simp
    with hprop have c: "h ! i \<in> S" "kept R (h ! i)" "h ! i \<noteq> 32" by auto
    from ch[OF c(1) dl] c(2,3) show "d \<in> S \<and> kept R d \<and> d \<noteq> 32 \<and> low d = {d}" by blast
  qed
  have 1: "filter (kept R) t = t" using tprop by (simp add: filter_id_conv)
  have gends: "g = [] \<or> (\<not> py_isspace R (hd g) \<and> \<not> py_isspace R (last g))"
    by (rule strip_ends) (simp add: g_def py_strip_def)
  have sp32: "py_isspace R 32" by (simp add: py_isspace_def ascii_isspace_def)
  have tends: "t = [] \<or> (\<not> py_isspace R (hd t) \<and> \<not> py_isspace R (last t))"
  proof (cases "h = []")
    case True
    with rel show ?thesis by simp
  next
    case False
    then have gne: "g \<noteq> []" by (simp add: h_def)
    with gends have e: "\<not> py_isspace R (hd g)" "\<not> py_isspace R (last g)" by auto
    with sp32 have "hd g \<noteq> 32" "last g \<noteq> 32" by auto
    with gne have hh: "hd h = hd g" "last h = last g" by (simp_all add: h_def hd_map last_map)
    from False have "hd h \<in> set h" "last h \<in> set h" by auto
    with hsub have inS: "hd h \<in> S" "last h \<in> S" by auto
    from list_all2_ends[OF rel False] have "hd t \<in> low (hd h)" "last t \<in> low (last h)" by auto
    with ch inS have "py_isspace R (hd t) = py_isspace R (hd h)"
        "py_isspace R (last t) = py_isspace R (last h)" by blast+
    with e hh show ?thesis by simp
  qed
  have 2: "py_strip R t = t" unfolding py_strip_def using tends by (rule strip_fixed)
  have 3: "map ?sp t = t" using tprop by (simp add: map_idI)
  have tsub: "set t \<subseteq> S" using tprop by blast
  from lw[OF tsub] have rel2: "list_all2 (\<lambda>c d. d \<in> low c) t (py_lower R t)" .
  have 4: "py_lower R t = t"
  proof (rule nth_equalityI)
    show "length (py_lower R t) = length t" using rel2 by (simp add: list_all2_lengthD)
  next
    fix i assume "i < length (py_lower R t)"
    with rel2 have il: "i < length t" by (simp add: list_all2_lengthD)
    with rel2 have "py_lower R t ! i \<in> low (t ! i)" by (rule list_all2_nthD)
    moreover from il have "t ! i \<in> set t" by simp
    with tprop have "low (t ! i) = {t ! i}" by blast
    ultimately show "py_lower R t ! i = t ! i" by simp
  qed
  have "sanitize R t = t" by (simp add: sanitize_def 1 2 3 4)
  then show ?thesis by (simp add: st)
qed


lemma lower_charwise_ascii: "lower_charwise R {c. c < 128} (\<lambda>c. {ascii_lower c})"
proof -
  have 1: "list_all2 (\<lambda>c d. d \<in> {ascii_lower c}) u (py_lower R u)" if "set u \<subseteq> {c. c < 128}" for u
  proof -
    from that have "is_ascii u" by (auto simp: is_ascii_def list_all_iff)
    then have "py_lower R u = map ascii_lower u" by (simp add: py_lower_def)
    then show ?thesis by (simp add: list_all2_conv_all_nth)
  qed
  have 2: "d \<in> {c. c < 128} \<and> {ascii_lower d} = {d} \<and> (kept R c \<longrightarrow> kept R d)
      \<and> py_isspace R d = py_isspace R c \<and> (d = 32 \<longrightarrow> c = 32)"
    if "c \<in> {c. c < 128}" "d \<in> {ascii_lower c}" for c d
    using that
    by (auto simp: kept_def is_word_def py_isalnum_def py_isspace_def ascii_isalnum_def
        ascii_isspace_def ascii_lower_def split: if_splits)
  have 3: "(32::nat) \<in> {c. c < 128} \<longrightarrow> (95::nat) \<in> {c. c < 128}" by simp
  from 1 2 3 show ?thesis unfolding lower_charwise_def by blast
qed

lemma lower_charwise_sample: "lower_charwise sample_runtime (- {304}) (\<lambda>c. {latin1_lower c})"
proof -
  have al: "ascii_lower c = latin1_lower c" if "c < 128" for c
    using that by (auto simp: ascii_lower_def latin1_lower_def)
  have 1: "list_all2 (\<lambda>c d. d \<in> {latin1_lower c}) u (py_lower sample_runtime u)"
    if u: "set u \<subseteq> - {304}" for u
  proof -
    have a: "map ascii_lower u = map latin1_lower u" if "is_ascii u"
      using that by (auto simp: is_ascii_def list_all_iff al)
    have b: "concat (map (\<lambda>c. if c = 304 then [105, 775] else [latin1_lower c]) u) = map latin1_lower u"
      using u by (induction u) auto
    have "py_lower sample_runtime u = map latin1_lower u"
      by (simp add: py_lower_def sample_runtime_def a b)
    then show ?thesis by (simp add: list_all2_conv_all_nth)
  qed
  have 2: "d \<in> - {304} \<and> {latin1_lower d} = {d} \<and> (kept sample_runtime c \<longrightarrow> kept sample_runtime d)
      \<and> py_isspace sample_runtime d = py_isspace sample_runtime c \<and> (d = 32 \<longrightarrow> c = 32)"
    if "c \<in> - {304}" "d \<in> {latin1_lower c}" for c d
  proof -
    from that have d: "d = latin1_lower c" and c: "c \<noteq> 304" by auto
    have i: "d \<noteq> 304" "latin1_lower d = d" "d = 32 \<longrightarrow> c = 32"
      using c unfolding d latin1_lower_def by auto
    have s: "py_isspace sample_runtime d = py_isspace sample_runtime c"
      unfolding d by (auto simp: py_isspace_def ascii_isspace_def sample_runtime_def latin1_lower_def)
    have k: "kept sample_runtime c \<longrightarrow> kept sample_runtime d"
      unfolding d
      by (auto simp: kept_def is_word_def py_isalnum_def py_isspace_def ascii_isalnum_def
          ascii_isspace_def sample_runtime_def latin1_isalnum_def latin1_lower_def)
    from i s k show ?thesis by simp
  qed
  have 3: "(32::nat) \<in> - {304} \<longrightarrow> (95::nat) \<in> - {304}" by simp
  from 1 2 3 show ?thesis unfolding lower_charwise_def by blast
qed

text \<open>
  Claim C10 says that \<open>_sanitize\<close> is idempotent on every string. It is not: the capital
  I with dot above, U+0130, is a letter, so the substitution keeps it, and \<open>lower()\<close>
  turns it into \<open>i\<close> followed by the combining dot above, U+0307, which is no word
  character. A second \<open>_sanitize\<close> deletes the combining dot.
\<close>

theorem sanitize_not_idempotent:
  "sanitize sample_runtime [304] = [105, 775]
   \<and> sanitize sample_runtime (sanitize sample_runtime [304]) = [105]"
  by code_simp

text \<open>
  Claim C10 as amended. \<open>_sanitize\<close> is idempotent,
  \<open>_sanitize(_sanitize(s)) = _sanitize(s)\<close>, on every string \<open>s\<close> over a set of characters
  on which \<open>lower()\<close> works character by character. The ASCII characters are such a set,
  so it is idempotent on every ASCII string.
\<close>

theorem sanitize_idempotent_charwise:
  "(lower_charwise R S low \<longrightarrow> set s \<subseteq> S \<longrightarrow> sanitize R (sanitize R s) = sanitize R s)
   \<and> lower_charwise R {c. c < 128} (\<lambda>c. {ascii_lower c})
   \<and> (is_ascii s \<longrightarrow> sanitize R (sanitize R s) = sanitize R s)"
proof -
  have "sanitize R (sanitize R s) = sanitize R s" if "is_ascii s"
  proof -
    from that have "set s \<subseteq> {c. c < 128}" by (auto simp: is_ascii_def list_all_iff)
    with lower_charwise_ascii show ?thesis by (rule sanitize_idempotent_on)
  qed
  with sanitize_idempotent_on lower_charwise_ascii show ?thesis by blast
qed

theorem sanitize_idempotent_charwise_witness:
  "304 \<notin> set sigur_ros
   \<and> sanitize sample_runtime sigur_ros = ascii ''sigur_r'' @ [243] @ ascii ''s__beyonc'' @ [233]
   \<and> sanitize sample_runtime (sanitize sample_runtime sigur_ros) = sanitize sample_runtime sigur_ros
   \<and> is_ascii ac_dc \<and> sanitize sample_runtime ac_dc = ascii ''acdc_live''
   \<and> sanitize sample_runtime (sanitize sample_runtime ac_dc) = sanitize sample_runtime ac_dc"
proof -
  have n: "304 \<notin> set sigur_ros" by code_simp
  then have sub: "set sigur_ros \<subseteq> - {304}" by blast
  have v1: "sanitize sample_runtime sigur_ros = ascii ''sigur_r'' @ [243] @ ascii ''s__beyonc'' @ [233]"
    by code_simp
  have a: "is_ascii ac_dc" by code_simp
  have v2: "sanitize sample_runtime ac_dc = ascii ''acdc_live''" by code_simp
  from sanitize_idempotent_charwise[of sample_runtime "- {304}" "\<lambda>c. {latin1_lower c}" sigur_ros]
    lower_charwise_sample sub
  have 1: "sanitize sample_runtime (sanitize sample_runtime sigur_ros) = sanitize sample_runtime sigur_ros"
    by blast
  from sanitize_idempotent_charwise[of sample_runtime _ _ ac_dc] a
  have 2: "sanitize sample_runtime (sanitize sample_runtime ac_dc) = sanitize sample_runtime ac_dc"
    by blast
  from n v1 1 a v2 2 show ?thesis by blast
qed

section \<open>The flat-file adapter\<close>

lemma parse_lines_Nil: "parse_lines R [] sgs = Inr sgs"
  by (subst parse_lines.simps) simp

lemma parse_lines_record:
  assumes "record_song R chunk sg"
  shows "parse_lines R (chunk @ f) sgs = parse_lines R f (sgs @ [sg])"
proof -
  from assms obtain l1 l2 l3 l4 l5 where c: "chunk = [l1, l2, l3, l4, l5]"
    by (auto simp: record_song_def split: list.splits)
  with assms have ne: "py_strip R l1 \<noteq> []" "py_strip R l2 \<noteq> []" "py_strip R l3 \<noteq> []"
      "py_strip R l4 \<noteq> []" "py_strip R l5 \<noteq> []"
    and cr: "create R (py_strip R l2) (py_strip R l3) (py_strip R l4) (StrRaw (py_strip R l5)) = Inr sg"
    by (simp_all add: record_song_def)
  show ?thesis
    by (subst parse_lines.simps) (simp add: c ne cr nonblank_def)
qed

lemma parse_lines_records:
  "list_all2 (record_song R) chunks new \<Longrightarrow>
     parse_lines R (concat chunks @ f) sgs = parse_lines R f (sgs @ new)"
proof (induction chunks new arbitrary: sgs rule: list_all2_induct)
  case Nil
  show ?case by simp
next
  case (Cons chunk chunks sg new)
  from parse_lines_record[OF Cons.hyps(1)] Cons.IH[of "sgs @ [sg]"]
  show ?case by simp
qed

lemma parse_lines_malformed:
  assumes "f \<noteq> []" and "length (nonblank R (take 5 f)) < 5"
  shows "parse_lines R f sgs = Inl (ValueError (MalformedEntry (nonblank R (take 5 f))))"
proof -
  from assms(1) have t: "take 5 f \<noteq> []" by (cases f) simp_all
  define xs where "xs = nonblank R (take 5 f)"
  from assms(2) have len: "length xs < 5" by (simp add: xs_def)
  have "(case xs of
            [track_no, ttl, art, alb, dur] \<Rightarrow>
              (case create R ttl art alb (StrRaw dur) of
                 Inl e \<Rightarrow> Inl e
               | Inr sg \<Rightarrow> parse_lines R (drop 5 f) (sgs @ [sg]))
          | stripped \<Rightarrow> Inl (ValueError (MalformedEntry stripped)))
        = Inl (ValueError (MalformedEntry xs))"
    using len by (auto split: list.splits)
  then show ?thesis
    unfolding xs_def
    by (subst parse_lines.simps) (simp only: Let_def t if_False)
qed

text \<open>
  Claim C9. \<open>parse_filepath\<close> reads the file in chunks of five lines. A file made of
  well-formed records gives the playlist of their songs, in the order of the file: so a
  file of ten lines, two records, gives two songs, and the end of the input, no line
  left, ends the loop without an error (also for the empty file). When, after some
  well-formed records, the next chunk has fewer than five lines that are not blank, the
  call fails with the \<open>ValueError\<close> that shows the lines of that chunk, and returns no
  playlist.
\<close>

theorem parse_filepath_records:
  "(list_all2 (record_song R) chunks sgs \<longrightarrow>
      parse_filepath R (concat chunks) = Inr (Playlist sgs []))
   \<and> (list_all2 (record_song R) chunks sgs \<longrightarrow> rest \<noteq> [] \<longrightarrow>
        length (nonblank R (take 5 rest)) < 5 \<longrightarrow>
      parse_filepath R (concat chunks @ rest)
        = Inl (ValueError (MalformedEntry (nonblank R (take 5 rest)))))
   \<and> (record_song R [l1, l2, l3, l4, l5] s1 \<longrightarrow> record_song R [l6, l7, l8, l9, l10] s2 \<longrightarrow>
      parse_filepath R [l1, l2, l3, l4, l5, l6, l7, l8, l9, l10] = Inr (Playlist [s1, s2] [])
      \<and> songs (Playlist [s1, s2] []) = [s1, s2]
      \<and> title s1 = py_strip R l2 \<and> title s2 = py_strip R l7)
   \<and> parse_filepath R [] = Inr (Playlist [] [])"
proof -
  have a: "parse_filepath R (concat chunks) = Inr (Playlist sgs [])"
    if "list_all2 (record_song R) chunks sgs" for chunks sgs
    using parse_lines_records[OF that, of "[]" "[]"] by (simp add: parse_filepath_def parse_lines_Nil)
  have b: "parse_filepath R (concat chunks @ rest)
        = Inl (ValueError (MalformedEntry (nonblank R (take 5 rest))))"
    if "list_all2 (record_song R) chunks sgs" "rest \<noteq> []" "length (nonblank R (take 5 rest)) < 5"
    using parse_lines_records[OF that(1), of rest "[]"] parse_lines_malformed[OF that(2,3)]
    by (simp add: parse_filepath_def)
  have c: "parse_filepath R [l1, l2, l3, l4, l5, l6, l7, l8, l9, l10] = Inr (Playlist [s1, s2] [])
      \<and> songs (Playlist [s1, s2] []) = [s1, s2]
      \<and> title s1 = py_strip R l2 \<and> title s2 = py_strip R l7"
    if r: "record_song R [l1, l2, l3, l4, l5] s1" "record_song R [l6, l7, l8, l9, l10] s2"
  proof -
    from r have "list_all2 (record_song R) [[l1, l2, l3, l4, l5], [l6, l7, l8, l9, l10]] [s1, s2]"
      by simp
    from a[OF this] have "parse_filepath R [l1, l2, l3, l4, l5, l6, l7, l8, l9, l10] = Inr (Playlist [s1, s2] [])"
      by simp
    moreover from r have "title s1 = py_strip R l2" "title s2 = py_strip R l7"
      by (auto simp: record_song_def create_def split: sum.splits)
    ultimately show ?thesis by (simp add: Playlist_def)
  qed
  have d: "parse_filepath R [] = Inr (Playlist [] [])"
    by (simp add: parse_filepath_def parse_lines_Nil)
  from a b c d show ?thesis by blast
qed

theorem parse_filepath_records_witness:
  "list_all2 (record_song sample_runtime) [take 5 two_records, drop 5 two_records] [love_song, lover_song]
   \<and> parse_filepath sample_runtime two_records = Inr (Playlist [love_song, lover_song] [])
   \<and> short_tail \<noteq> [] \<and> length (nonblank sample_runtime (take 5 short_tail)) < 5
   \<and> parse_filepath sample_runtime (two_records @ short_tail)
       = Inl (ValueError (MalformedEntry [ascii ''3'', ascii ''Love Songs'', ascii ''Kaash Paige'']))"
proof -
  have r: "list_all2 (record_song sample_runtime) [take 5 two_records, drop 5 two_records] [love_song, lover_song]"
    by code_simp
  have c: "concat [take 5 two_records, drop 5 two_records] = two_records" by simp
  have n: "short_tail \<noteq> []" by code_simp
  have l: "length (nonblank sample_runtime (take 5 short_tail)) < 5" by code_simp
  have v: "nonblank sample_runtime (take 5 short_tail) = [ascii ''3'', ascii ''Love Songs'', ascii ''Kaash Paige'']"
    by code_simp
  from parse_filepath_records[of sample_runtime "[take 5 two_records, drop 5 two_records]"
      "[love_song, lover_song]" short_tail] r n l
  have "parse_filepath sample_runtime (concat [take 5 two_records, drop 5 two_records]) = Inr (Playlist [love_song, lover_song] [])"
    and "parse_filepath sample_runtime (concat [take 5 two_records, drop 5 two_records] @ short_tail)
        = Inl (ValueError (MalformedEntry (nonblank sample_runtime (take 5 short_tail))))"
    by blast+
  with r n l show ?thesis unfolding c v by blast
qed

end
